theory Spec2Isabelle
  imports Main "HOL-Library.Multiset"
begin

section \<open>Python values and the operations the handlers apply to them\<close>

text \<open>
  A request body read by \<^verbatim>\<open>request.get_json()\<close> is a Python value built from
  JSON: \<^verbatim>\<open>None\<close>, a bool, a number, a string, a list or a dict. A dict is kept as
  the list of its items (the parser leaves one item per key; a lookup reads the first
  item with the key). Numbers are the integers; fractional numbers are outside the model.
\<close>

datatype json =
    JNull
  | JBool bool
  | JNum int
  | JStr string
  | JArr "json list"
  | JObj "(string \<times> json) list"

text \<open>The exceptions the handlers can meet. The last two are raised by the database layer.\<close>

datatype py_error =
    TypeError
  | KeyError
  | AttributeError
  | ValueError
  | IntegrityError
  | DataError

text \<open>Sequencing of two steps, the first of which may raise.\<close>

definition then_do :: "py_error + 'a \<Rightarrow> ('a \<Rightarrow> py_error + 'b) \<Rightarrow> py_error + 'b" where
  "then_do r f = (case r of Inl e \<Rightarrow> Inl e | Inr v \<Rightarrow> f v)"

text \<open>Python truth value: \<^verbatim>\<open>not x\<close> is \<open>\<not> truthy x\<close>.\<close>

fun truthy :: "json \<Rightarrow> bool" where
  "truthy JNull = False"
| "truthy (JBool b) = b"
| "truthy (JNum n) = (n \<noteq> 0)"
| "truthy (JStr s) = (s \<noteq> [])"
| "truthy (JArr xs) = (xs \<noteq> [])"
| "truthy (JObj kvs) = (kvs \<noteq> [])"

text \<open>\<^verbatim>\<open>x or d\<close>.\<close>

definition py_or :: "json \<Rightarrow> json \<Rightarrow> json" where
  "py_or x d = (if truthy x then x else d)"

text \<open>\<^verbatim>\<open>k in s\<close> for two strings: \<open>k\<close> occurs in \<open>s\<close> as a contiguous run.\<close>

fun str_contains :: "string \<Rightarrow> string \<Rightarrow> bool" where
  "str_contains [] k = (k = [])"
| "str_contains (c # s) k = (take (length k) (c # s) = k \<or> str_contains s k)"

text \<open>
  \<^verbatim>\<open>k in d\<close> for a string \<open>k\<close>: key membership in a dict, element membership in a
  list, substring test in a string; \<^verbatim>\<open>None\<close>, bools and numbers are not iterable.
\<close>

fun py_in :: "string \<Rightarrow> json \<Rightarrow> py_error + bool" where
  "py_in k (JObj kvs) = Inr (map_of kvs k \<noteq> None)"
| "py_in k (JArr xs) = Inr (JStr k \<in> set xs)"
| "py_in k (JStr s) = Inr (str_contains s k)"
| "py_in k JNull = Inl TypeError"
| "py_in k (JBool b) = Inl TypeError"
| "py_in k (JNum n) = Inl TypeError"

text \<open>
  \<^verbatim>\<open>d[k]\<close> for a string \<open>k\<close>: the value in a dict (\<^verbatim>\<open>KeyError\<close> when absent);
  a list or a string takes integer indices only, the other values are not subscriptable.
\<close>

fun py_item :: "json \<Rightarrow> string \<Rightarrow> py_error + json" where
  "py_item (JObj kvs) k = (case map_of kvs k of None \<Rightarrow> Inl KeyError | Some v \<Rightarrow> Inr v)"
| "py_item (JArr xs) k = Inl TypeError"
| "py_item (JStr s) k = Inl TypeError"
| "py_item JNull k = Inl TypeError"
| "py_item (JBool b) k = Inl TypeError"
| "py_item (JNum n) k = Inl TypeError"

text \<open>\<^verbatim>\<open>d.get(k, dflt)\<close>: only a dict has the method.\<close>

fun py_get :: "json \<Rightarrow> string \<Rightarrow> json \<Rightarrow> py_error + json" where
  "py_get (JObj kvs) k dflt = Inr (case map_of kvs k of None \<Rightarrow> dflt | Some v \<Rightarrow> v)"
| "py_get (JArr xs) k dflt = Inl AttributeError"
| "py_get (JStr s) k dflt = Inl AttributeError"
| "py_get JNull k dflt = Inl AttributeError"
| "py_get (JBool b) k dflt = Inl AttributeError"
| "py_get (JNum n) k dflt = Inl AttributeError"

text \<open>
  \<^verbatim>\<open>s.replace('Z', '+00:00')\<close>: every occurrence of the one-character pattern is
  replaced; only a string has the method.
\<close>

definition replace_Z :: "string \<Rightarrow> string" where
  "replace_Z s = concat (map (\<lambda>c. if c = CHR ''Z'' then ''+00:00'' else [c]) s)"

fun py_replace_Z :: "json \<Rightarrow> py_error + string" where
  "py_replace_Z (JStr s) = Inr (replace_Z s)"
| "py_replace_Z (JArr xs) = Inl AttributeError"
| "py_replace_Z (JObj kvs) = Inl AttributeError"
| "py_replace_Z JNull = Inl AttributeError"
| "py_replace_Z (JBool b) = Inl AttributeError"
| "py_replace_Z (JNum n) = Inl AttributeError"

section \<open>The data model (models.py)\<close>

text \<open>
  \<open>'t\<close> is the type of the values of a \<^verbatim>\<open>DateTime\<close> column; the queries only
  compare them. Text columns hold strings, nullable columns an option.
\<close>

record 't client =
  client_id_of :: nat
  api_key :: string
  name :: "string option"
  created_at :: 't
  is_active :: bool

record 't event =
  event_id :: nat
  client_id :: nat
  visitor_id :: string
  session_id :: string
  page_url :: string
  page_title :: "string option"
  referrer :: "string option"
  event_type :: string
  sdk_version :: "string option"
  sent_at :: 't
  received_at :: 't
  raw_data :: json

text \<open>
  The \<^verbatim>\<open>Event(...)\<close> object as the handler builds it, before the session writes it:
  the keyword arguments hold whatever Python values the payload had; the columns the
  handler does not pass stay unset.
\<close>

record 't new_event =
  ne_client_id :: nat
  ne_visitor_id :: json
  ne_session_id :: json
  ne_page_url :: json
  ne_event_type :: json
  ne_sdk_version :: json
  ne_sent_at :: 't
  ne_raw_data :: json

text \<open>
  What the program takes from outside: the standard library's ISO-8601 parser
  (\<^verbatim>\<open>datetime.fromisoformat\<close>, \<open>None\<close> for \<^verbatim>\<open>ValueError\<close>), the clock, the random
  token of \<^verbatim>\<open>secrets.token_urlsafe(32)\<close>, and the database engine: how it binds a
  Python value to a text column (\<open>None\<close> when the statement fails: a value of a type the
  driver cannot bind, a string over the column's length) and whether a commit goes through.
\<close>

record 't env =
  fromisoformat :: "string \<Rightarrow> 't option"
  utcnow :: 't
  token_urlsafe :: string
  bind_text :: "json \<Rightarrow> string option"
  commit_ok :: bool

text \<open>
  The state the handlers read and write: the two tables and the Prometheus instruments
  (\<^verbatim>\<open>errors_total\<close> by type, \<^verbatim>\<open>events_total\<close> by event type and client name, and the
  number of observations of \<^verbatim>\<open>request_duration_seconds\<close> by endpoint).
\<close>

record 't state =
  clients :: "'t client list"
  events :: "'t event list"
  error_counter :: "string \<Rightarrow> nat"
  events_counter :: "json \<times> string option \<Rightarrow> nat"
  request_duration :: "string \<Rightarrow> nat"

definition inc_error :: "string \<Rightarrow> 't state \<Rightarrow> 't state" where
  "inc_error l st = st\<lparr>error_counter := (error_counter st)(l := Suc (error_counter st l))\<rparr>"

definition inc_events :: "json \<times> string option \<Rightarrow> 't state \<Rightarrow> 't state" where
  "inc_events l st = st\<lparr>events_counter := (events_counter st)(l := Suc (events_counter st l))\<rparr>"

definition observe :: "string \<Rightarrow> 't state \<Rightarrow> 't state" where
  "observe l st = st\<lparr>request_duration := (request_duration st)(l := Suc (request_duration st l))\<rparr>"

subsection \<open>Writing a row\<close>

text \<open>A \<^verbatim>\<open>nullable=False\<close> text column refuses \<^verbatim>\<open>None\<close>; a nullable one stores NULL.\<close>

definition bind_required :: "'t env \<Rightarrow> json \<Rightarrow> py_error + string" where
  "bind_required env v =
     (if v = JNull then Inl IntegrityError
      else case bind_text env v of None \<Rightarrow> Inl DataError | Some s \<Rightarrow> Inr s)"

definition bind_nullable :: "'t env \<Rightarrow> json \<Rightarrow> py_error + string option" where
  "bind_nullable env v =
     (if v = JNull then Inr None
      else case bind_text env v of None \<Rightarrow> Inl DataError | Some s \<Rightarrow> Inr (Some s))"

text \<open>The primary key the store assigns: above every key present.\<close>

definition next_id :: "nat list \<Rightarrow> nat" where
  "next_id ids = Suc (fold max ids 0)"

text \<open>
  \<^verbatim>\<open>db.session.add(event); db.session.commit()\<close>: the row is written with its typed
  columns, its key and the \<^verbatim>\<open>received_at\<close> default, or the statement raises and
  nothing is written.
\<close>

definition add_event :: "'t env \<Rightarrow> 't state \<Rightarrow> 't new_event \<Rightarrow> py_error + ('t event \<times> 't state)" where
  "add_event env st ne =
     then_do (bind_required env (ne_visitor_id ne)) (\<lambda>vid.
     then_do (bind_required env (ne_session_id ne)) (\<lambda>sid.
     then_do (bind_required env (ne_page_url ne)) (\<lambda>url.
     then_do (bind_required env (ne_event_type ne)) (\<lambda>ety.
     then_do (bind_nullable env (ne_sdk_version ne)) (\<lambda>sdk.
       if \<not> commit_ok env then Inl DataError
       else
         let e = \<lparr>event_id = next_id (map event_id (events st)),
                  client_id = ne_client_id ne,
                  visitor_id = vid, session_id = sid, page_url = url,
                  page_title = None, referrer = None,
                  event_type = ety, sdk_version = sdk,
                  sent_at = ne_sent_at ne, received_at = utcnow env,
                  raw_data = ne_raw_data ne\<rparr>
         in Inr (e, st\<lparr>events := events st @ [e]\<rparr>))))))"

section \<open>Responses\<close>

datatype 't body =
    Error string
  | Registered string
  | Receipt nat 't

type_synonym 't response = "nat \<times> 't body"

text \<open>
  A handler returns a response or lets an exception escape; the framework answers an
  escaped exception with status 500.
\<close>

definition status_of :: "py_error + 't response \<Rightarrow> nat" where
  "status_of r = (case r of Inl e \<Rightarrow> 500 | Inr (code, b) \<Rightarrow> code)"

section \<open>Ingestion: \<^verbatim>\<open>track_event\<close>\<close>

definition required :: "string list" where
  "required = [''event_type'', ''sent_at'', ''identifiers'', ''page_info'']"

text \<open>
  The validation loop: the first field of the list that is not \<^verbatim>\<open>in data\<close>, if any.
  The test itself raises when \<open>data\<close> is not a container.
\<close>

fun first_missing :: "json \<Rightarrow> string list \<Rightarrow> py_error + string option" where
  "first_missing data [] = Inr None"
| "first_missing data (f # fs) =
     (case py_in f data of
        Inl e \<Rightarrow> Inl e
      | Inr False \<Rightarrow> Inr (Some f)
      | Inr True \<Rightarrow> first_missing data fs)"

text \<open>The keyword arguments of \<^verbatim>\<open>Event(...)\<close>, evaluated in the order written.\<close>

definition build_event :: "'t env \<Rightarrow> 't client \<Rightarrow> json \<Rightarrow> py_error + 't new_event" where
  "build_event env c data =
     then_do (then_do (py_item data ''identifiers'') (\<lambda>i. py_item i ''visitor_id'')) (\<lambda>vid.
     then_do (then_do (py_item data ''identifiers'') (\<lambda>i. py_item i ''session_id'')) (\<lambda>sid.
     then_do (then_do (py_item data ''page_info'') (\<lambda>p. py_item p ''url'')) (\<lambda>url.
     then_do (py_item data ''event_type'') (\<lambda>ety.
     then_do (py_get data ''sdk_version'' JNull) (\<lambda>sdk.
     then_do (then_do (py_item data ''sent_at'') py_replace_Z) (\<lambda>s.
       case fromisoformat env s of
         None \<Rightarrow> Inl ValueError
       | Some t \<Rightarrow>
           Inr \<lparr>ne_client_id = client_id_of c,
                ne_visitor_id = vid, ne_session_id = sid, ne_page_url = url,
                ne_event_type = ety, ne_sdk_version = sdk,
                ne_sent_at = t, ne_raw_data = data\<rparr>))))))"

text \<open>
  The body of the \<^verbatim>\<open>try\<close>: build the event, write it, update the two instruments.
\<close>

definition process_event :: "'t env \<Rightarrow> 't client \<Rightarrow> json \<Rightarrow> 't state \<Rightarrow> py_error + ('t response \<times> 't state)" where
  "process_event env c data st =
     then_do (build_event env c data) (\<lambda>ne.
     then_do (add_event env st ne) (\<lambda>(e, st').
     then_do (py_item data ''event_type'') (\<lambda>ety.
       Inr ((201, Receipt (event_id e) (utcnow env)),
            observe ''/api/events'' (inc_events (ety, name c) st')))))"

text \<open>
  The handler, for the client the gate attached and the value of
  \<^verbatim>\<open>request.get_json()\<close>. An exception of the validation loop escapes; one inside the
  \<^verbatim>\<open>try\<close> is caught: the counter is incremented and the session rolled back, so the
  tables are those before the request.
\<close>

definition track_event :: "'t env \<Rightarrow> 't client \<Rightarrow> json \<Rightarrow> 't state \<Rightarrow> (py_error + 't response) \<times> 't state" where
  "track_event env c data st =
     (case first_missing data required of
        Inl e \<Rightarrow> (Inl e, st)
      | Inr (Some f) \<Rightarrow> (Inr (400, Error (''Missing '' @ f)), inc_error ''validation'' st)
      | Inr None \<Rightarrow>
          (case process_event env c data st of
             Inr (resp, st') \<Rightarrow> (Inr resp, st')
           | Inl e \<Rightarrow> (Inr (500, Error ''Failed to process event''), inc_error ''processing'' st)))"

section \<open>Registration: \<^verbatim>\<open>register_client\<close>\<close>




section \<open>The gate: \<^verbatim>\<open>authenticate\<close>\<close>

text \<open>
  What the gate reads of a request: the path, the value of
  \<^verbatim>\<open>request.get_json(silent=True)\<close> (\<^verbatim>\<open>None\<close> when the body is not JSON) and the
  \<^verbatim>\<open>X-API-Key\<close> header.
\<close>

record request =
  path :: string
  json_body :: json
  x_api_key :: "string option"

datatype 't gate =
    Public
  | Attached "'t client"
  | Rejected "'t response"

definition public_paths :: "string list" where
  "public_paths = [''/health'', ''/api/register'', ''/'', ''/metrics'']"

text \<open>\<^verbatim>\<open>request.headers.get('X-API-Key')\<close>.\<close>

definition header_key :: "request \<Rightarrow> json" where
  "header_key req = (case x_api_key req of None \<Rightarrow> JNull | Some h \<Rightarrow> JStr h)"

text \<open>
  \<^verbatim>\<open>Client.query.filter_by(api_key=api_key, is_active=True).first()\<close>: the row whose
  key is the string given. A value that is not a string equals no key.
\<close>

definition find_client :: "json \<Rightarrow> 't client list \<Rightarrow> 't client option" where
  "find_client k cs = find (\<lambda>c. JStr (api_key c) = k \<and> is_active c) cs"

definition authenticate :: "request \<Rightarrow> 't state \<Rightarrow> (py_error + 't gate) \<times> 't state" where
  "authenticate req st =
     (if path req \<in> set public_paths then (Inr Public, st)
      else case py_get (py_or (json_body req) (JObj [])) ''api_key'' JNull of
        Inl e \<Rightarrow> (Inl e, st)
      | Inr k0 \<Rightarrow>
          (let k = (if \<not> truthy k0 then header_key req else k0) in
           if \<not> truthy k then
             (Inr (Rejected (401, Error ''Missing api_key'')), inc_error ''auth_missing'' st)
           else case find_client k (clients st) of
             None \<Rightarrow>
               (Inr (Rejected (401, Error ''Invalid API key'')), inc_error ''auth_invalid'' st)
           | Some c \<Rightarrow> (Inr (Attached c), st)))"

section \<open>Analytics\<close>

subsection \<open>Query operators\<close>

definition order_by_asc :: "('a \<Rightarrow> 'k::linorder) \<Rightarrow> 'a list \<Rightarrow> 'a list" where
  "order_by_asc key xs = sort_key key xs"

text \<open>Descending order; the engine is free in the order of rows with equal keys.\<close>

definition order_by_desc :: "('a \<Rightarrow> 'k::linorder) \<Rightarrow> 'a list \<Rightarrow> 'a list" where
  "order_by_desc key xs = rev (sort_key key xs)"

definition limit :: "nat \<Rightarrow> 'a list \<Rightarrow> 'a list" where
  "limit n xs = take n xs"

definition first :: "'a list \<Rightarrow> 'a option" where
  "first xs = (case xs of [] \<Rightarrow> None | x # _ \<Rightarrow> Some x)"

text \<open>\<^verbatim>\<open>GROUP BY\<close> with \<^verbatim>\<open>count\<close>: one row per distinct key, with its number of rows.\<close>

definition group_count :: "('a \<Rightarrow> 'k) \<Rightarrow> 'a list \<Rightarrow> ('k \<times> nat) list" where
  "group_count key xs =
     map (\<lambda>k. (k, length (filter (\<lambda>x. key x = k) xs))) (remdups (map key xs))"

text \<open>\<^verbatim>\<open>dict(pairs)\<close>: a later pair with a key already present replaces its value.\<close>

fun dict_set :: "'k \<Rightarrow> 'v \<Rightarrow> ('k \<times> 'v) list \<Rightarrow> ('k \<times> 'v) list" where
  "dict_set k v [] = [(k, v)]"
| "dict_set k v ((k', v') # d) = (if k' = k then (k', v) # d else (k', v') # dict_set k v d)"

definition py_dict :: "('k \<times> 'v) list \<Rightarrow> ('k \<times> 'v) list" where
  "py_dict ps = fold (\<lambda>(k, v) d. dict_set k v d) ps []"

text \<open>
  \<^verbatim>\<open>a.get(k1, {}).get(k2, dflt)\<close>: raises when \<open>a\<close>, or the value under \<open>k1\<close>, is
  not a dict.
\<close>

definition nested_get :: "json \<Rightarrow> string \<Rightarrow> string \<Rightarrow> json \<Rightarrow> py_error + json" where
  "nested_get a k1 k2 dflt = then_do (py_get a k1 (JObj [])) (\<lambda>d. py_get d k2 dflt)"

text \<open>A list comprehension whose element expression may raise.\<close>

fun collect :: "('a \<Rightarrow> py_error + 'b) \<Rightarrow> 'a list \<Rightarrow> py_error + 'b list" where
  "collect f [] = Inr []"
| "collect f (x # xs) = then_do (f x) (\<lambda>y. then_do (collect f xs) (\<lambda>ys. Inr (y # ys)))"

subsection \<open>\<^verbatim>\<open>analytics_summary\<close>\<close>

record 't summary =
  summary_client :: "string option"
  total_events :: nat
  by_type :: "(string \<times> nat) list"
  unique_visitors :: nat
  first_event :: "'t option"

definition filter_by_client :: "nat \<Rightarrow> 't event list \<Rightarrow> 't event list" where
  "filter_by_client cid es = filter (\<lambda>e. client_id e = cid) es"

definition analytics_summary :: "'t::linorder client \<Rightarrow> 't state \<Rightarrow> py_error + 't summary" where
  "analytics_summary c st =
     (let cid = client_id_of c;
          total = length (filter_by_client cid (events st));
          rows = group_count event_type (filter_by_client cid (events st));
          visitors = length (remdups (map visitor_id (filter_by_client cid (events st))))
      in then_do
           (if total > 0 then
              (case first (order_by_asc sent_at (filter_by_client cid (events st))) of
                 None \<Rightarrow> Inl AttributeError
               | Some e \<Rightarrow> Inr (Some (sent_at e)))
            else Inr None)
           (\<lambda>fe. Inr \<lparr>summary_client = name c, total_events = total,
                       by_type = py_dict rows, unique_visitors = visitors,
                       first_event = fe\<rparr>))"

subsection \<open>\<^verbatim>\<open>recent_events\<close>\<close>

record 't event_view =
  view_id :: nat
  view_type :: string
  view_visitor :: string
  view_page :: string
  view_time :: 't
  view_error :: json
  view_click :: json
  view_load_time :: json

definition recent_query :: "nat \<Rightarrow> 't::linorder event list \<Rightarrow> 't event list" where
  "recent_query cid es = limit 50 (order_by_desc sent_at (filter_by_client cid es))"

definition event_view_of :: "'t event \<Rightarrow> py_error + 't event_view" where
  "event_view_of e =
     then_do (if event_type e = ''error''
              then nested_get (raw_data e) ''error_info'' ''message'' JNull else Inr JNull) (\<lambda>err.
     then_do (if event_type e = ''click''
              then nested_get (raw_data e) ''click_info'' ''element'' JNull else Inr JNull) (\<lambda>clk.
     then_do (if event_type e = ''page_view''
              then nested_get (raw_data e) ''performance'' ''load_time'' JNull else Inr JNull) (\<lambda>lt.
       Inr \<lparr>view_id = event_id e, view_type = event_type e, view_visitor = visitor_id e,
            view_page = page_url e, view_time = sent_at e,
            view_error = err, view_click = clk, view_load_time = lt\<rparr>)))"

definition recent_events :: "'t::linorder client \<Rightarrow> 't state \<Rightarrow> py_error + 't event_view list" where
  "recent_events c st = collect event_view_of (recent_query (client_id_of c) (events st))"

subsection \<open>\<^verbatim>\<open>error_analytics\<close>\<close>

text \<open>
  The keys of a Python dict: lists and dicts are unhashable; \<^verbatim>\<open>True\<close> and \<^verbatim>\<open>1\<close>,
  \<^verbatim>\<open>False\<close> and \<^verbatim>\<open>0\<close> are one key.
\<close>

fun hashable :: "json \<Rightarrow> bool" where
  "hashable (JArr xs) = False"
| "hashable (JObj kvs) = False"
| "hashable v = True"

fun key_norm :: "json \<Rightarrow> json" where
  "key_norm (JBool b) = JNum (if b then 1 else 0)"
| "key_norm v = v"

definition same_key :: "json \<Rightarrow> json \<Rightarrow> bool" where
  "same_key a b = (key_norm a = key_norm b)"

text \<open>
  \<^verbatim>\<open>d[k] = d.get(k, 0) + 1\<close> on a hashable key: the entry of the key is incremented
  in place, a new key is added at the end.
\<close>

fun bump :: "(json \<times> nat) list \<Rightarrow> json \<Rightarrow> (json \<times> nat) list" where
  "bump [] k = [(k, 1)]"
| "bump ((k', n) # d) k = (if same_key k' k then (k', Suc n) # d else (k', n) # bump d k)"

definition count_message :: "(json \<times> nat) list \<Rightarrow> json \<Rightarrow> py_error + (json \<times> nat) list" where
  "count_message d k = (if hashable k then Inr (bump d k) else Inl TypeError)"

definition message_key :: "'t event \<Rightarrow> py_error + json" where
  "message_key e = nested_get (raw_data e) ''error_info'' ''message'' (JStr ''Unknown'')"

text \<open>The loop over \<^verbatim>\<open>errors\<close>, from the dict built so far.\<close>

fun count_errors :: "(json \<times> nat) list \<Rightarrow> 't event list \<Rightarrow> py_error + (json \<times> nat) list" where
  "count_errors d [] = Inr d"
| "count_errors d (e # es) =
     then_do (message_key e) (\<lambda>k. then_do (count_message d k) (\<lambda>d'. count_errors d' es))"

record 't error_view =
  err_message :: json
  err_file :: json
  err_line :: json
  err_page :: string
  err_time :: 't

record 't error_report =
  total_errors :: nat
  recent_errors :: "'t error_view list"
  error_frequency :: "(json \<times> nat) list"

definition error_query :: "nat \<Rightarrow> 't::linorder event list \<Rightarrow> 't event list" where
  "error_query cid es =
     limit 100 (order_by_desc sent_at
       (filter (\<lambda>e. client_id e = cid \<and> event_type e = ''error'') es))"

definition error_view_of :: "'t event \<Rightarrow> py_error + 't error_view" where
  "error_view_of e =
     then_do (nested_get (raw_data e) ''error_info'' ''message'' JNull) (\<lambda>m.
     then_do (nested_get (raw_data e) ''error_info'' ''file'' JNull) (\<lambda>f.
     then_do (nested_get (raw_data e) ''error_info'' ''line'' JNull) (\<lambda>l.
       Inr \<lparr>err_message = m, err_file = f, err_line = l,
            err_page = page_url e, err_time = sent_at e\<rparr>)))"

definition error_analytics :: "'t::linorder client \<Rightarrow> 't state \<Rightarrow> py_error + 't error_report" where
  "error_analytics c st =
     (let errors = error_query (client_id_of c) (events st) in
      then_do (count_errors [] errors) (\<lambda>error_counts.
      then_do (collect error_view_of (take 10 errors)) (\<lambda>views.
        Inr \<lparr>total_errors = length errors, recent_errors = views,
             error_frequency = error_counts\<rparr>)))"


section \<open>A request through the gate to the ingestion handler\<close>

text \<open>
  Flask runs \<^verbatim>\<open>authenticate\<close> before the view: a response it returns is the
  answer, an exception it raises escapes, and otherwise \<^verbatim>\<open>track_event\<close> runs with
  the client left in \<^verbatim>\<open>g\<close>. The view reads the same JSON body as the gate; without
  a client in \<^verbatim>\<open>g\<close>, reading \<^verbatim>\<open>g.client\<close> raises.
\<close>

definition handle_events :: "'t env \<Rightarrow> request \<Rightarrow> 't state \<Rightarrow> (py_error + 't response) \<times> 't state" where
  "handle_events env req st =
     (case authenticate req st of
        (Inl e, st') \<Rightarrow> (Inl e, st')
      | (Inr (Rejected resp), st') \<Rightarrow> (Inr resp, st')
      | (Inr (Attached c), st') \<Rightarrow> track_event env c (json_body req) st'
      | (Inr Public, st') \<Rightarrow> (Inl AttributeError, st'))"

section \<open>Reading a frequency table\<close>



section \<open>Sample data\<close>

text \<open>
  A parser that knows one timestamp, an engine that binds strings as they are, two
  tenants and four events, three of them of the first tenant; and a table of 53 events of
  one tenant, more than the feed returns.
\<close>

definition sample_env :: "nat env" where
  "sample_env =
     \<lparr>fromisoformat = (\<lambda>s. if s = ''2024-01-01T12:00:00+00:00'' then Some 1200 else None),
      utcnow = 5000,
      token_urlsafe = ''q8Xt'',
      bind_text = (\<lambda>v. case v of JStr s \<Rightarrow> Some s | _ \<Rightarrow> None),
      commit_ok = True\<rparr>"

definition acme :: "nat client" where
  "acme = \<lparr>client_id_of = 1, api_key = ''sk_acme'', name = Some ''Acme'',
            created_at = 100, is_active = True\<rparr>"

definition globex :: "nat client" where
  "globex = \<lparr>client_id_of = 2, api_key = ''sk_globex'', name = Some ''Globex'',
              created_at = 200, is_active = True\<rparr>"

definition sample_event :: "nat \<Rightarrow> nat \<Rightarrow> string \<Rightarrow> nat \<Rightarrow> json \<Rightarrow> nat event" where
  "sample_event i cid ety t raw =
     \<lparr>event_id = i, client_id = cid, visitor_id = ''v1'', session_id = ''s1'',
      page_url = ''https://x.test'', page_title = None, referrer = None,
      event_type = ety, sdk_version = None, sent_at = t, received_at = t + 1,
      raw_data = raw\<rparr>"

definition sample_events :: "nat event list" where
  "sample_events =
     [sample_event 1 1 ''click'' 10 (JObj [(''click_info'', JObj [(''element'', JStr ''#buy'')])]),
      sample_event 2 2 ''error'' 30 (JObj [(''error_info'', JObj [(''message'', JStr ''boom'')])]),
      sample_event 3 1 ''error'' 20 (JObj [(''error_info'', JObj [(''message'', JStr ''boom'')])]),
      sample_event 4 1 ''error'' 5 (JObj [])]"

definition sample_state :: "nat state" where
  "sample_state =
     \<lparr>clients = [acme, globex], events = sample_events,
      error_counter = (\<lambda>l. 0), events_counter = (\<lambda>l. 0), request_duration = (\<lambda>l. 0)\<rparr>"

definition sample_payload :: json where
  "sample_payload =
     JObj [(''event_type'', JStr ''click''),
           (''sent_at'', JStr ''2024-01-01T12:00:00Z''),
           (''identifiers'', JObj [(''visitor_id'', JStr ''v1''), (''session_id'', JStr ''s1'')]),
           (''page_info'', JObj [(''url'', JStr ''https://x.test''), (''title'', JStr ''Home''),
                                 (''referrer'', JStr ''https://ref.test'')])]"

definition payload_without_visitor :: json where
  "payload_without_visitor =
     JObj [(''event_type'', JStr ''click''),
           (''sent_at'', JStr ''2024-01-01T12:00:00Z''),
           (''identifiers'', JObj [(''session_id'', JStr ''s1'')]),
           (''page_info'', JObj [(''url'', JStr ''https://x.test'')])]"

definition null_body_request :: request where
  "null_body_request = \<lparr>path = ''/api/events'', json_body = JNull, x_api_key = Some ''sk_acme''\<rparr>"

definition list_body_request :: request where
  "list_body_request =
     \<lparr>path = ''/api/analytics/summary'', json_body = JArr [JNum 1], x_api_key = None\<rparr>"

definition sample_views :: "nat event_view list" where
  "sample_views =
     [\<lparr>view_id = 3, view_type = ''error'', view_visitor = ''v1'',
       view_page = ''https://x.test'', view_time = 20,
       view_error = JStr ''boom'', view_click = JNull, view_load_time = JNull\<rparr>,
      \<lparr>view_id = 1, view_type = ''click'', view_visitor = ''v1'',
       view_page = ''https://x.test'', view_time = 10,
       view_error = JNull, view_click = JStr ''#buy'', view_load_time = JNull\<rparr>,
      \<lparr>view_id = 4, view_type = ''error'', view_visitor = ''v1'',
       view_page = ''https://x.test'', view_time = 5,
       view_error = JNull, view_click = JNull, view_load_time = JNull\<rparr>]"

definition sample_error_report :: "nat error_report" where
  "sample_error_report =
     \<lparr>total_errors = 2,
      recent_errors =
        [\<lparr>err_message = JStr ''boom'', err_file = JNull, err_line = JNull,
          err_page = ''https://x.test'', err_time = 20\<rparr>,
         \<lparr>err_message = JNull, err_file = JNull, err_line = JNull,
          err_page = ''https://x.test'', err_time = 5\<rparr>],
      error_frequency = [(JStr ''boom'', 1), (JStr ''Unknown'', 1)]\<rparr>"

definition sample_summary_value :: "nat summary" where
  "sample_summary_value =
     \<lparr>summary_client = Some ''Acme'', total_events = 3,
      by_type = [(''click'', 1), (''error'', 2)], unique_visitors = 1,
      first_event = Some 5\<rparr>"

definition busy_events :: "nat event list" where
  "busy_events = map (\<lambda>i. sample_event i 1 ''click'' i (JObj [])) [1..<54]"

section \<open>Basic facts\<close>

lemma then_do_Inr_iff:
  "then_do r f = Inr y \<longleftrightarrow> (\<exists>v. r = Inr v \<and> f v = Inr y)"
  by (cases r) (simp_all add: then_do_def)

lemma then_do_simps [simp]:
  "then_do (Inl e) f = Inl e"
  "then_do (Inr v) f = f v"
  by (simp_all add: then_do_def)

lemma isl_then_doI: "(\<And>v. isl (f v)) \<Longrightarrow> isl (then_do r f)"
  by (cases r) simp_all

subsection \<open>Ordering and limiting rows\<close>

lemma order_by_desc_sorted:
  "sorted_wrt (\<lambda>a b. key b \<le> key a) (order_by_desc key xs)"
proof -
  have "sorted (map key (sort_key key xs))" by (rule sorted_sort_key)
  then have "sorted_wrt (\<lambda>a b. key a \<le> key b) (sort_key key xs)"
    by (simp add: sorted_map)
  then show ?thesis
    by (simp add: order_by_desc_def sorted_wrt_rev)
qed

lemma order_by_desc_mset: "mset (order_by_desc key xs) = mset xs"
  by (simp add: order_by_desc_def)

lemma order_by_desc_set: "set (order_by_desc key xs) = set xs"
  by (simp add: order_by_desc_def)

lemma limit_sorted: "sorted_wrt P xs \<Longrightarrow> sorted_wrt P (limit n xs)"
  unfolding limit_def by (metis append_take_drop_id sorted_wrt_append)

lemma limit_cut:
  assumes "sorted_wrt P xs"
  shows "\<forall>a\<in>set (limit n xs). \<forall>b\<in>set (drop n xs). P a b"
proof -
  have "sorted_wrt P (take n xs @ drop n xs)" using assms by simp
  then show ?thesis unfolding limit_def sorted_wrt_append by blast
qed

lemma limit_mset: "mset xs = mset (limit n xs) + mset (drop n xs)"
  unfolding limit_def by (metis append_take_drop_id mset_append)

lemma top_rows:
  fixes key :: "'a \<Rightarrow> 'k::linorder"
  shows "\<exists>rest. mset xs = mset (limit n (order_by_desc key xs)) + mset rest
           \<and> (\<forall>r\<in>set (limit n (order_by_desc key xs)). \<forall>x\<in>set rest. key x \<le> key r)
           \<and> (length (limit n (order_by_desc key xs)) < n \<longrightarrow> rest = [])"
proof (intro exI conjI)
  let ?s = "order_by_desc key xs"
  show "mset xs = mset (limit n ?s) + mset (drop n ?s)"
    using limit_mset [of ?s n] by (simp add: order_by_desc_mset)
  show "\<forall>r\<in>set (limit n ?s). \<forall>x\<in>set (drop n ?s). key x \<le> key r"
    using limit_cut [OF order_by_desc_sorted, of n key xs] by blast
  show "length (limit n ?s) < n \<longrightarrow> drop n ?s = []"
    by (simp add: limit_def)
qed

lemma first_order_by_asc:
  fixes key :: "'a \<Rightarrow> 'k::linorder"
  assumes "xs \<noteq> []"
  shows "\<exists>e. first (order_by_asc key xs) = Some e \<and> e \<in> set xs \<and> (\<forall>x\<in>set xs. key e \<le> key x)"
proof -
  have ne: "sort_key key xs \<noteq> []" using assms by (metis length_0_conv length_sort)
  then obtain e rest where er: "sort_key key xs = e # rest" by (cases "sort_key key xs") auto
  have "sorted (map key (sort_key key xs))" by (rule sorted_sort_key)
  then have le: "\<forall>x\<in>set (e # rest). key e \<le> key x" by (auto simp: er)
  have mem: "set (e # rest) = set xs" using er by (metis set_sort)
  have "first (order_by_asc key xs) = Some e" by (simp add: first_def order_by_asc_def er)
  then show ?thesis using le mem by auto
qed

subsection \<open>Comprehensions and nested lookups\<close>

lemma collect_list_all2:
  "collect f xs = Inr ys \<Longrightarrow> list_all2 (\<lambda>x y. f x = Inr y) xs ys"
proof (induction xs arbitrary: ys)
  case Nil
  then show ?case by simp
next
  case (Cons x xs)
  then show ?case
    by (auto simp: then_do_Inr_iff)
qed

lemma collect_returns:
  "\<forall>x\<in>set xs. \<exists>y. f x = Inr y \<Longrightarrow> \<exists>ys. collect f xs = Inr ys"
  by (induction xs) (auto simp: then_do_Inr_iff)



subsection \<open>The sample data, evaluated\<close>

lemma sample_recent_rows:
  "recent_query 1 sample_events =
     [sample_event 3 1 ''error'' 20 (JObj [(''error_info'', JObj [(''message'', JStr ''boom'')])]),
      sample_event 1 1 ''click'' 10 (JObj [(''click_info'', JObj [(''element'', JStr ''#buy'')])]),
      sample_event 4 1 ''error'' 5 (JObj [])]"
  by (simp add: recent_query_def limit_def order_by_desc_def filter_by_client_def
      sample_events_def sample_event_def)

lemma busy_recent_rows:
  "length (filter_by_client 1 busy_events) = 53
   \<and> map event_id (recent_query 1 busy_events) = rev [4..<54]"
  by code_simp

lemma sample_recent_events: "recent_events acme sample_state = Inr sample_views"
  by (simp add: recent_events_def recent_query_def limit_def order_by_desc_def
      filter_by_client_def event_view_of_def nested_get_def sample_views_def
      acme_def sample_state_def sample_events_def sample_event_def)

lemma sample_summary: "analytics_summary acme sample_state = Inr sample_summary_value"
  by (simp add: analytics_summary_def Let_def filter_by_client_def group_count_def py_dict_def
      first_def order_by_asc_def acme_def sample_state_def sample_events_def sample_event_def
      sample_summary_value_def)

lemma sample_error_analytics: "error_analytics acme sample_state = Inr sample_error_report"
  by (simp add: error_analytics_def error_query_def limit_def order_by_desc_def
      acme_def sample_state_def sample_events_def sample_event_def sample_error_report_def
      message_key_def nested_get_def count_message_def same_key_def error_view_of_def)

lemma sample_track_event:
  "fst (track_event sample_env acme sample_payload sample_state) = Inr (201, Receipt 5 5000)"
  by (simp add: track_event_def process_event_def build_event_def add_event_def
      bind_required_def bind_nullable_def required_def sample_payload_def sample_env_def
      replace_Z_def acme_def sample_state_def sample_events_def sample_event_def next_id_def
      observe_def inc_events_def Let_def)

section \<open>The recent-events feed\<close>

lemma event_view_of_fields:
  assumes "event_view_of e = Inr v"
  shows "view_id v = event_id e \<and> view_type v = event_type e \<and> view_visitor v = visitor_id e
         \<and> view_page v = page_url e \<and> view_time v = sent_at e"
  using assms unfolding event_view_of_def by (auto simp: then_do_Inr_iff)

lemma event_view_of_returns:
  assumes "raw_data e = JObj kvs"
    and "\<forall>k\<in>{''error_info'', ''click_info'', ''performance''}.
           map_of kvs k = None \<or> (\<exists>i. map_of kvs k = Some (JObj i))"
  shows "\<exists>v. event_view_of e = Inr v"
  using assms unfolding event_view_of_def nested_get_def
  by (auto simp: then_do_Inr_iff split: option.splits)

lemma recent_query_length: "length (recent_query cid es) \<le> 50"
  by (simp add: recent_query_def limit_def)

lemma recent_query_set:
  "e \<in> set (recent_query cid es) \<Longrightarrow> e \<in> set es \<and> client_id e = cid"
  unfolding recent_query_def limit_def filter_by_client_def
  by (auto dest!: in_set_takeD simp: order_by_desc_set)

text \<open>
  C1. For every tenant and every content of the events table, the query of
  \<^verbatim>\<open>recent_events\<close> returns at most 50 rows, each a row of the table with the tenant's
  \<open>client_id\<close>, in descending order of \<open>sent_at\<close>; the tenant's rows it leaves out are
  no later than any row it returns, and none is left out while fewer than 50 are returned.
  When the handler answers, its list shows these rows one for one, in this order; it
  answers whenever the details of every returned row can be read.
\<close>

theorem recent_events_bounded_scoped_latest:
  fixes es :: "'t::linorder event list"
  shows "length (recent_query cid es) \<le> 50
       \<and> (\<forall>e\<in>set (recent_query cid es). e \<in> set es \<and> client_id e = cid)
       \<and> sorted_wrt (\<lambda>a b. sent_at b \<le> sent_at a) (recent_query cid es)
       \<and> (\<exists>rest. mset (filter_by_client cid es) = mset (recent_query cid es) + mset rest
             \<and> (\<forall>r\<in>set (recent_query cid es). \<forall>x\<in>set rest. sent_at x \<le> sent_at r)
             \<and> (length (recent_query cid es) < 50 \<longrightarrow> rest = []))
       \<and> (\<forall>c st vs. client_id_of c = cid \<and> events st = es \<and> recent_events c st = Inr vs \<longrightarrow>
             list_all2 (\<lambda>e v. view_id v = event_id e \<and> view_type v = event_type e
                              \<and> view_visitor v = visitor_id e \<and> view_page v = page_url e
                              \<and> view_time v = sent_at e) (recent_query cid es) vs)
       \<and> ((\<forall>e\<in>set (recent_query cid es). \<exists>v. event_view_of e = Inr v) \<longrightarrow>
             (\<forall>c st. client_id_of c = cid \<and> events st = es \<longrightarrow>
                (\<exists>vs. recent_events c st = Inr vs)))"
proof (intro conjI)
  show "length (recent_query cid es) \<le> 50" by (rule recent_query_length)
  show "\<forall>e\<in>set (recent_query cid es). e \<in> set es \<and> client_id e = cid"
    using recent_query_set by blast
  show "sorted_wrt (\<lambda>a b. sent_at b \<le> sent_at a) (recent_query cid es)"
    unfolding recent_query_def by (rule limit_sorted) (rule order_by_desc_sorted)
  show "\<exists>rest. mset (filter_by_client cid es) = mset (recent_query cid es) + mset rest
             \<and> (\<forall>r\<in>set (recent_query cid es). \<forall>x\<in>set rest. sent_at x \<le> sent_at r)
             \<and> (length (recent_query cid es) < 50 \<longrightarrow> rest = [])"
    unfolding recent_query_def by (rule top_rows)
  show "\<forall>c st vs. client_id_of c = cid \<and> events st = es \<and> recent_events c st = Inr vs \<longrightarrow>
             list_all2 (\<lambda>e v. view_id v = event_id e \<and> view_type v = event_type e
                              \<and> view_visitor v = visitor_id e \<and> view_page v = page_url e
                              \<and> view_time v = sent_at e) (recent_query cid es) vs"
  proof (intro allI impI)
    fix c :: "'t client" and st :: "'t state" and vs
    assume a: "client_id_of c = cid \<and> events st = es \<and> recent_events c st = Inr vs"
    then have "collect event_view_of (recent_query cid es) = Inr vs"
      by (auto simp: recent_events_def)
    then have "list_all2 (\<lambda>e v. event_view_of e = Inr v) (recent_query cid es) vs"
      by (rule collect_list_all2)
    then show "list_all2 (\<lambda>e v. view_id v = event_id e \<and> view_type v = event_type e
                              \<and> view_visitor v = visitor_id e \<and> view_page v = page_url e
                              \<and> view_time v = sent_at e) (recent_query cid es) vs"
      by (rule list_all2_mono) (rule event_view_of_fields)
  qed  show "(\<forall>e\<in>set (recent_query cid es). \<exists>v. event_view_of e = Inr v) \<longrightarrow>
             (\<forall>c st. client_id_of c = cid \<and> events st = es \<longrightarrow>
                (\<exists>vs. recent_events c st = Inr vs))"
    using collect_returns [of "recent_query cid es" event_view_of]
    by (auto simp: recent_events_def)
qed

theorem recent_events_witness:
  "client_id_of acme = 1 \<and> events sample_state = sample_events
   \<and> recent_events acme sample_state = Inr sample_views
   \<and> map event_id (recent_query 1 sample_events) = [3, 1, 4]
   \<and> length (recent_query 1 sample_events) \<le> 50
   \<and> list_all (\<lambda>e. e \<in> set sample_events \<and> client_id e = 1) (recent_query 1 sample_events)
   \<and> sorted_wrt (\<lambda>a b. sent_at b \<le> sent_at a) (recent_query 1 sample_events)
   \<and> list_all2 (\<lambda>e v. view_id v = event_id e \<and> view_type v = event_type e
                      \<and> view_visitor v = visitor_id e \<and> view_page v = page_url e
                      \<and> view_time v = sent_at e) (recent_query 1 sample_events) sample_views
   \<and> length (filter_by_client 1 busy_events) = 53
   \<and> map event_id (recent_query 1 busy_events) = rev [4..<54]
   \<and> length (recent_query 1 busy_events) \<le> 50
   \<and> sorted_wrt (\<lambda>a b. sent_at b \<le> sent_at a) (recent_query 1 busy_events)"
proof -
  have a: "client_id_of acme = 1" by (simp add: acme_def)
  have b: "events sample_state = sample_events" by (simp add: sample_state_def)
  have c: "map event_id (recent_query 1 sample_events) = [3, 1, 4]"
    by (subst sample_recent_rows) (simp add: sample_event_def)
  from a b c sample_recent_events busy_recent_rows
    recent_events_bounded_scoped_latest [of 1 sample_events]
    recent_events_bounded_scoped_latest [of 1 busy_events]
  show ?thesis unfolding list_all_iff by blast
qed

section \<open>The gate\<close>

lemma find_client_Some:
  "find_client k cs = Some c \<Longrightarrow> c \<in> set cs \<and> k = JStr (api_key c) \<and> is_active c"
  by (auto simp: find_client_def find_Some_iff)

lemma find_client_None:
  "find_client k cs = None \<longleftrightarrow> (\<forall>c\<in>set cs. \<not> (JStr (api_key c) = k \<and> is_active c))"
  by (auto simp: find_client_def find_None_iff)

lemma authenticate_object_body:
  assumes p: "path req \<notin> set public_paths"
    and b: "json_body req = JObj kvs \<or> \<not> truthy (json_body req)"
    and k0: "k0 = (case json_body req of JObj kvs \<Rightarrow>
                     (case map_of kvs ''api_key'' of None \<Rightarrow> JNull | Some v \<Rightarrow> v) | _ \<Rightarrow> JNull)"
    and k: "k = (if truthy k0 then k0 else header_key req)"
  shows "authenticate req st =
     (if \<not> truthy k then
        (Inr (Rejected (401, Error ''Missing api_key'')), inc_error ''auth_missing'' st)
      else case find_client k (clients st) of
        None \<Rightarrow> (Inr (Rejected (401, Error ''Invalid API key'')), inc_error ''auth_invalid'' st)
      | Some c \<Rightarrow> (Inr (Attached c), st))"
proof -
  have "py_get (py_or (json_body req) (JObj [])) ''api_key'' JNull = Inr k0"
    using b by (cases "json_body req") (auto simp: py_or_def k0 split: option.splits)
  then show ?thesis using p by (simp add: authenticate_def k Let_def)
qed

text \<open>
  C2. The claim: every request outside the allow-list that supplies no key is answered
  401 \<^verbatim>\<open>Missing api_key\<close>. On a JSON body that is a non-empty list the gate calls
  \<^verbatim>\<open>.get\<close> on the list: \<^verbatim>\<open>AttributeError\<close> escapes, the request is answered 500,
  and no counter moves.
\<close>

theorem non_object_body_escapes_gate:
  "path list_body_request \<notin> set public_paths
   \<and> authenticate list_body_request sample_state = (Inl AttributeError, sample_state)
   \<and> handle_events sample_env list_body_request sample_state = (Inl AttributeError, sample_state)
   \<and> status_of (fst (handle_events sample_env list_body_request sample_state)) = 500"
  by (simp add: handle_events_def authenticate_def list_body_request_def
      public_paths_def py_or_def status_of_def)

section \<open>Ingestion\<close>

lemma add_event_Inr:
  assumes "add_event env st ne = Inr (e, st')"
  shows "st' = st\<lparr>events := events st @ [e]\<rparr> \<and> page_title e = None \<and> referrer e = None
       \<and> sent_at e = ne_sent_at ne \<and> raw_data e = ne_raw_data ne \<and> client_id e = ne_client_id ne"
  using assms unfolding add_event_def Let_def
  by (auto simp: then_do_Inr_iff split: if_splits)

lemma build_event_Inr:
  assumes "build_event env c data = Inr ne"
  shows "ne_raw_data ne = data \<and> ne_client_id ne = client_id_of c
       \<and> (\<exists>v s. py_item data ''sent_at'' = Inr v \<and> py_replace_Z v = Inr s
                \<and> fromisoformat env s = Some (ne_sent_at ne))"
  using assms unfolding build_event_def
  by (auto simp: then_do_Inr_iff split: option.splits)

lemma build_event_Inr_steps:
  assumes "build_event env c data = Inr ne"
  shows "\<not> isl (then_do (py_item data ''identifiers'') (\<lambda>i. py_item i ''visitor_id''))
       \<and> \<not> isl (then_do (py_item data ''identifiers'') (\<lambda>i. py_item i ''session_id''))
       \<and> \<not> isl (then_do (py_item data ''page_info'') (\<lambda>p. py_item p ''url''))
       \<and> (\<forall>s. py_item data ''sent_at'' = Inr (JStr s) \<longrightarrow> fromisoformat env (replace_Z s) \<noteq> None)"
  using assms unfolding build_event_def
  by (auto simp: then_do_Inr_iff split: option.splits)

lemma process_event_Inr:
  assumes "process_event env c data st = Inr (resp, st')"
  shows "\<exists>ne e st1 ety. build_event env c data = Inr ne \<and> add_event env st ne = Inr (e, st1)
          \<and> py_item data ''event_type'' = Inr ety
          \<and> resp = (201, Receipt (event_id e) (utcnow env))
          \<and> st' = observe ''/api/events'' (inc_events (ety, name c) st1)"
  using assms unfolding process_event_def
  by (auto simp: then_do_Inr_iff)

lemma track_event_cases:
  "(\<exists>e. first_missing data required = Inl e \<and> track_event env c data st = (Inl e, st))
   \<or> (\<exists>f. first_missing data required = Inr (Some f)
         \<and> track_event env c data st = (Inr (400, Error (''Missing '' @ f)), inc_error ''validation'' st))
   \<or> (first_missing data required = Inr None \<and> (\<exists>e. process_event env c data st = Inl e)
         \<and> track_event env c data st
             = (Inr (500, Error ''Failed to process event''), inc_error ''processing'' st))
   \<or> (first_missing data required = Inr None
         \<and> (\<exists>resp st'. process_event env c data st = Inr (resp, st')
               \<and> track_event env c data st = (Inr resp, st')))"
  unfolding track_event_def
  by (auto split: sum.splits option.splits)

lemma track_event_stored:
  assumes "events (snd (track_event env c data st)) \<noteq> events st
           \<or> fst (track_event env c data st) = Inr (201, b)"
  shows "\<exists>ne e. build_event env c data = Inr ne
          \<and> events (snd (track_event env c data st)) = events st @ [e]
          \<and> clients (snd (track_event env c data st)) = clients st
          \<and> fst (track_event env c data st) = Inr (201, Receipt (event_id e) (utcnow env))
          \<and> page_title e = None \<and> referrer e = None
          \<and> sent_at e = ne_sent_at ne \<and> raw_data e = ne_raw_data ne
          \<and> client_id e = ne_client_id ne"
proof -
  from track_event_cases [of data env c st] assms
  obtain resp st' where p: "process_event env c data st = Inr (resp, st')"
    and t: "track_event env c data st = (Inr resp, st')"
    by (auto simp: inc_error_def)
  from process_event_Inr [OF p] obtain ne e st1 ety where
    b: "build_event env c data = Inr ne" and a: "add_event env st ne = Inr (e, st1)"
    and r: "resp = (201, Receipt (event_id e) (utcnow env))"
    and s: "st' = observe ''/api/events'' (inc_events (ety, name c) st1)" by blast
  from add_event_Inr [OF a] show ?thesis
    using b by (auto simp: t r s observe_def inc_events_def Let_def)
qed

lemma first_missing_object:
  "first_missing (JObj kvs) fs = Inr (find (\<lambda>f. map_of kvs f = None) fs)"
  by (induction fs) auto

lemma object_missing_field_rejected:
  assumes "f \<in> set required" and "map_of kvs f = None"
  shows "\<exists>g\<in>set required. map_of kvs g = None
          \<and> track_event env c (JObj kvs) st
              = (Inr (400, Error (''Missing '' @ g)), inc_error ''validation'' st)
          \<and> events (inc_error ''validation'' st) = events st"
proof -
  from assms obtain g where g: "find (\<lambda>f. map_of kvs f = None) required = Some g"
    by (cases "find (\<lambda>f. map_of kvs f = None) required") (auto simp: find_None_iff)
  then have "g \<in> set required \<and> map_of kvs g = None"
    by (auto simp: find_Some_iff)
  moreover have "track_event env c (JObj kvs) st
              = (Inr (400, Error (''Missing '' @ g)), inc_error ''validation'' st)"
    by (simp add: track_event_def first_missing_object g)
  ultimately show ?thesis by (auto simp: inc_error_def)
qed

lemma track_event_stores_well_formed:
  assumes kv: "map_of kvs ''event_type'' = Some ety" "map_of kvs ''sent_at'' = Some (JStr ts)"
      "map_of kvs ''identifiers'' = Some (JObj ids)" "map_of kvs ''page_info'' = Some (JObj pinfo)"
    and sub: "map_of ids ''visitor_id'' = Some vid" "map_of ids ''session_id'' = Some sid"
      "map_of pinfo ''url'' = Some url"
    and t: "fromisoformat env (replace_Z ts) = Some t"
    and binds: "bind_required env vid = Inr vid'" "bind_required env sid = Inr sid'"
      "bind_required env url = Inr url'" "bind_required env ety = Inr ety'"
      "bind_nullable env (case map_of kvs ''sdk_version'' of None \<Rightarrow> JNull | Some v \<Rightarrow> v) = Inr sdk"
    and ok: "commit_ok env"
  shows "fst (track_event env c (JObj kvs) st)
           = Inr (201, Receipt (next_id (map event_id (events st))) (utcnow env))
       \<and> events (snd (track_event env c (JObj kvs) st))
           = events st @
             [\<lparr>event_id = next_id (map event_id (events st)), client_id = client_id_of c,
               visitor_id = vid', session_id = sid', page_url = url',
               page_title = None, referrer = None, event_type = ety', sdk_version = sdk,
               sent_at = t, received_at = utcnow env, raw_data = JObj kvs\<rparr>]"
proof -
  have v: "first_missing (JObj kvs) required = Inr None"
    by (simp add: first_missing_object required_def kv)
  have b: "build_event env c (JObj kvs)
        = Inr \<lparr>ne_client_id = client_id_of c, ne_visitor_id = vid, ne_session_id = sid,
               ne_page_url = url, ne_event_type = ety,
               ne_sdk_version = (case map_of kvs ''sdk_version'' of None \<Rightarrow> JNull | Some v \<Rightarrow> v),
               ne_sent_at = t, ne_raw_data = JObj kvs\<rparr>"
    by (simp add: build_event_def kv sub t)
  show ?thesis
    by (simp add: track_event_def v process_event_def b add_event_def binds ok Let_def kv
        observe_def inc_events_def)
qed

text \<open>
  C3. The claim: every authenticated submission whose payload lacks one of the four
  fields is answered 400. With a valid key in the header and the JSON body
  \<^verbatim>\<open>null\<close>, the gate attaches the client and the membership test of the validation
  loop raises \<^verbatim>\<open>TypeError\<close> outside the \<^verbatim>\<open>try\<close>: the request is answered 500. The
  tables stay as they were.
\<close>

theorem null_payload_escapes_validation:
  "fst (authenticate null_body_request sample_state) = Inr (Attached acme)
   \<and> first_missing (json_body null_body_request) required = Inl TypeError
   \<and> handle_events sample_env null_body_request sample_state = (Inl TypeError, sample_state)
   \<and> status_of (fst (handle_events sample_env null_body_request sample_state)) = 500"
  by (simp add: handle_events_def authenticate_def track_event_def null_body_request_def
      public_paths_def py_or_def header_key_def find_client_def required_def status_of_def
      sample_state_def acme_def globex_def)

lemma add_event_commit_fails: "\<not> commit_ok env \<Longrightarrow> isl (add_event env st ne)"
  unfolding add_event_def by (intro isl_then_doI) simp

lemma build_event_fails:
  assumes "isl (then_do (py_item data ''identifiers'') (\<lambda>i. py_item i ''visitor_id''))
         \<or> isl (then_do (py_item data ''identifiers'') (\<lambda>i. py_item i ''session_id''))
         \<or> isl (then_do (py_item data ''page_info'') (\<lambda>p. py_item p ''url''))
         \<or> (\<exists>s. py_item data ''sent_at'' = Inr (JStr s) \<and> fromisoformat env (replace_Z s) = None)"
  shows "isl (build_event env c data)"
proof (cases "build_event env c data")
  case (Inl e)
  then show ?thesis by simp
next
  case (Inr ne)
  from build_event_Inr_steps [OF Inr] assms show ?thesis by blast
qed

lemma process_event_fails:
  assumes "isl (build_event env c data) \<or> \<not> commit_ok env"
  shows "isl (process_event env c data st)"
proof (cases "build_event env c data")
  case (Inl e)
  then show ?thesis by (simp add: process_event_def)
next
  case (Inr ne)
  with assms have "isl (add_event env st ne)" by (simp add: add_event_commit_fails)
  then show ?thesis by (cases "add_event env st ne") (simp_all add: process_event_def Inr)
qed

text \<open>
  C4. For every submission that passes the validation loop and then fails inside the
  \<^verbatim>\<open>try\<close> (\<open>identifiers\<close> without \<open>visitor_id\<close> or \<open>session_id\<close>, \<open>page_info\<close>
  without \<open>url\<close>, a \<open>sent_at\<close> the parser refuses, a commit that fails, or any other
  exception there), the answer is 500 with the fixed body, the counter \<open>processing\<close> is
  one higher, and both tables, so the tenant's number of events, are unchanged.
\<close>

theorem processing_failure_rolls_back:
  assumes valid: "first_missing data required = Inr None"
    and fails: "isl (then_do (py_item data ''identifiers'') (\<lambda>i. py_item i ''visitor_id''))
         \<or> isl (then_do (py_item data ''identifiers'') (\<lambda>i. py_item i ''session_id''))
         \<or> isl (then_do (py_item data ''page_info'') (\<lambda>p. py_item p ''url''))
         \<or> (\<exists>s. py_item data ''sent_at'' = Inr (JStr s) \<and> fromisoformat env (replace_Z s) = None)
         \<or> \<not> commit_ok env
         \<or> isl (process_event env c data st)"
  shows "track_event env c data st
           = (Inr (500, Error ''Failed to process event''), inc_error ''processing'' st)
       \<and> status_of (fst (track_event env c data st)) = 500
       \<and> events (snd (track_event env c data st)) = events st
       \<and> clients (snd (track_event env c data st)) = clients st
       \<and> error_counter (snd (track_event env c data st)) ''processing''
           = Suc (error_counter st ''processing'')
       \<and> events_counter (snd (track_event env c data st)) = events_counter st
       \<and> length (filter_by_client (client_id_of c) (events (snd (track_event env c data st))))
           = length (filter_by_client (client_id_of c) (events st))"
proof -
  have "isl (process_event env c data st)"
    using fails build_event_fails [of data env c] process_event_fails [of env c data st] by blast
  then obtain e where "process_event env c data st = Inl e" by (auto simp: isl_def)
  then have "track_event env c data st
           = (Inr (500, Error ''Failed to process event''), inc_error ''processing'' st)"
    by (simp add: track_event_def valid)
  then show ?thesis by (simp add: inc_error_def status_of_def)
qed

theorem processing_failure_witness:
  "first_missing payload_without_visitor required = Inr None
   \<and> isl (then_do (py_item payload_without_visitor ''identifiers'') (\<lambda>i. py_item i ''visitor_id''))
   \<and> track_event sample_env acme payload_without_visitor sample_state
           = (Inr (500, Error ''Failed to process event''), inc_error ''processing'' sample_state)
   \<and> events (snd (track_event sample_env acme payload_without_visitor sample_state))
           = events sample_state"
proof -
  have v: "first_missing payload_without_visitor required = Inr None"
    by (simp add: payload_without_visitor_def required_def)
  have f: "isl (then_do (py_item payload_without_visitor ''identifiers'') (\<lambda>i. py_item i ''visitor_id''))"
    by (simp add: payload_without_visitor_def)
  from f have f': "isl (then_do (py_item payload_without_visitor ''identifiers'') (\<lambda>i. py_item i ''visitor_id''))
         \<or> isl (then_do (py_item payload_without_visitor ''identifiers'') (\<lambda>i. py_item i ''session_id''))
         \<or> isl (then_do (py_item payload_without_visitor ''page_info'') (\<lambda>p. py_item p ''url''))
         \<or> (\<exists>s. py_item payload_without_visitor ''sent_at'' = Inr (JStr s)
                \<and> fromisoformat sample_env (replace_Z s) = None)
         \<or> \<not> commit_ok sample_env
         \<or> isl (process_event sample_env acme payload_without_visitor sample_state)" by blast
  from processing_failure_rolls_back [OF v f'] v f
  show ?thesis by blast
qed

section \<open>The summary\<close>

lemma dict_set_fresh: "k \<notin> fst ` set d \<Longrightarrow> dict_set k v d = d @ [(k, v)]"
  by (induction d) auto

lemma fold_dict_set_distinct:
  "distinct (map fst (d @ ps)) \<Longrightarrow> fold (\<lambda>(k, v) d. dict_set k v d) ps d = d @ ps"
proof (induction ps arbitrary: d)
  case Nil
  then show ?case by simp
next
  case (Cons p ps)
  obtain k v where p: "p = (k, v)" by (cases p)
  from Cons.prems have fresh: "k \<notin> fst ` set d" by (auto simp: p)
  from Cons.prems have "distinct (map fst ((d @ [(k, v)]) @ ps))" by (auto simp: p)
  from Cons.IH [OF this] show ?case by (simp add: p dict_set_fresh [OF fresh])
qed

lemma py_dict_distinct: "distinct (map fst ps) \<Longrightarrow> py_dict ps = ps"
  unfolding py_dict_def using fold_dict_set_distinct [of "[]" ps] by simp

lemma group_count_keys: "map fst (group_count key xs) = remdups (map key xs)"
  by (simp add: group_count_def comp_def)

lemma sum_length_filter_keys:
  assumes "finite K" and "key ` set xs \<subseteq> K"
  shows "(\<Sum>k\<in>K. length (filter (\<lambda>x. key x = k) xs)) = length xs"
  using assms(2)
proof (induction xs)
  case Nil
  then show ?case by simp
next
  case (Cons x xs)
  then have k: "key x \<in> K" and sub: "key ` set xs \<subseteq> K" by auto
  have "(\<Sum>k\<in>K. length (filter (\<lambda>y. key y = k) (x # xs)))
        = (\<Sum>k\<in>K. (if key x = k then 1 else 0) + length (filter (\<lambda>y. key y = k) xs))"
    by (rule sum.cong) auto
  also have "\<dots> = (\<Sum>k\<in>K. if key x = k then 1 else 0)
                  + (\<Sum>k\<in>K. length (filter (\<lambda>y. key y = k) xs))"
    by (rule sum.distrib)
  also have "(\<Sum>k\<in>K. if key x = k then 1 else (0::nat)) = 1"
    using assms(1) k by simp
  finally show ?case using Cons.IH [OF sub] by simp
qed

lemma group_count_total: "sum_list (map snd (group_count key xs)) = length xs"
proof -
  have "sum_list (map snd (group_count key xs))
        = sum_list (map (\<lambda>k. length (filter (\<lambda>x. key x = k) xs)) (remdups (map key xs)))"
    by (simp add: group_count_def comp_def)
  also have "\<dots> = (\<Sum>k\<in>set (remdups (map key xs)). length (filter (\<lambda>x. key x = k) xs))"
    by (rule sum_list_distinct_conv_sum_set) simp
  also have "\<dots> = length xs"
    by (rule sum_length_filter_keys) auto
  finally show ?thesis .
qed

lemma analytics_summary_returns:
  fixes c :: "'t::linorder client"
  shows "\<exists>s. analytics_summary c st = Inr s
     \<and> total_events s = length (filter_by_client (client_id_of c) (events st))
     \<and> by_type s = group_count event_type (filter_by_client (client_id_of c) (events st))
     \<and> first_event s =
         (if filter_by_client (client_id_of c) (events st) = [] then None
          else Some (Min (sent_at ` set (filter_by_client (client_id_of c) (events st)))))"
proof (cases "filter_by_client (client_id_of c) (events st) = []")
  case True
  then show ?thesis
    by (simp add: analytics_summary_def Let_def py_dict_distinct group_count_keys)
next
  case False
  let ?xs = "filter_by_client (client_id_of c) (events st)"
  from first_order_by_asc [OF False, of sent_at]
  obtain e where e: "first (order_by_asc sent_at ?xs) = Some e" "e \<in> set ?xs"
    "\<forall>x\<in>set ?xs. sent_at e \<le> sent_at x" by blast
  have "Min (sent_at ` set ?xs) = sent_at e"
    by (rule Min_eqI) (use e in auto)
  then show ?thesis using False e(1)
    by (simp add: analytics_summary_def Let_def py_dict_distinct group_count_keys)
qed

text \<open>
  C5. For every tenant and every content of the events table, \<^verbatim>\<open>analytics_summary\<close>
  answers; \<open>total_events\<close> is the sum of the counts in \<open>by_type\<close>, which has one entry
  per event type with the number of the tenant's events of that type, and
  \<open>first_event\<close> is the least \<open>sent_at\<close> of the tenant's events, or null when there
  are none.
\<close>

theorem summary_total_is_sum_of_by_type:
  fixes c :: "'t::linorder client"
  shows "\<exists>s. analytics_summary c st = Inr s
     \<and> total_events s = sum_list (map snd (by_type s))
     \<and> distinct (map fst (by_type s))
     \<and> (\<forall>(k, n)\<in>set (by_type s).
          n = length (filter (\<lambda>e. event_type e = k) (filter_by_client (client_id_of c) (events st))))
     \<and> total_events s = length (filter_by_client (client_id_of c) (events st))
     \<and> first_event s =
         (if filter_by_client (client_id_of c) (events st) = [] then None
          else Some (Min (sent_at ` set (filter_by_client (client_id_of c) (events st)))))"
proof -
  from analytics_summary_returns [of c st] obtain s where s:
    "analytics_summary c st = Inr s"
    "total_events s = length (filter_by_client (client_id_of c) (events st))"
    "by_type s = group_count event_type (filter_by_client (client_id_of c) (events st))"
    "first_event s =
         (if filter_by_client (client_id_of c) (events st) = [] then None
          else Some (Min (sent_at ` set (filter_by_client (client_id_of c) (events st)))))"
    by blast
  have "sum_list (map snd (by_type s)) = total_events s"
    by (simp only: s(2) s(3) group_count_total)
  moreover have "distinct (map fst (by_type s))"
    by (simp only: s(3) group_count_keys distinct_remdups)
  moreover have "\<forall>(k, n)\<in>set (by_type s).
          n = length (filter (\<lambda>e. event_type e = k) (filter_by_client (client_id_of c) (events st)))"
    unfolding s(3) group_count_def by auto
  ultimately show ?thesis using s by auto
qed

theorem summary_witness:
  "analytics_summary acme sample_state = Inr sample_summary_value
   \<and> total_events sample_summary_value = 3
   \<and> by_type sample_summary_value = [(''click'', 1), (''error'', 2)]
   \<and> first_event sample_summary_value = Some 5
   \<and> total_events sample_summary_value = sum_list (map snd (by_type sample_summary_value))
   \<and> distinct (map fst (by_type sample_summary_value))"
proof -
  have "total_events sample_summary_value = 3
   \<and> by_type sample_summary_value = [(''click'', 1), (''error'', 2)]
   \<and> first_event sample_summary_value = Some 5"
    by (simp add: sample_summary_value_def)
  moreover from summary_total_is_sum_of_by_type [of acme sample_state]
  have "total_events sample_summary_value = sum_list (map snd (by_type sample_summary_value))
   \<and> distinct (map fst (by_type sample_summary_value))"
    unfolding sample_summary by blast
  ultimately show ?thesis using sample_summary by blast
qed

section \<open>Error analytics\<close>


lemma bump_sum: "sum_list (map snd (bump d k)) = Suc (sum_list (map snd d))"
  by (induction d k rule: bump.induct) auto



lemma bump_keys:
  "set (map (key_norm \<circ> fst) (bump d k)) = insert (key_norm k) (set (map (key_norm \<circ> fst) d))"
  by (induction d k rule: bump.induct) (auto simp: same_key_def)

lemma bump_distinct:
  "distinct (map (key_norm \<circ> fst) d) \<Longrightarrow> distinct (map (key_norm \<circ> fst) (bump d k))"
proof (induction d k rule: bump.induct)
  case (1 k)
  then show ?case by simp
next
  case (2 k' n d k)
  show ?case
  proof (cases "same_key k' k")
    case True
    then show ?thesis using 2 by simp
  next
    case False
    have "key_norm k' \<notin> set (map (key_norm \<circ> fst) (bump d k))"
      using False "2.prems" unfolding bump_keys by (auto simp: same_key_def)
    then show ?thesis using False 2 by simp
  qed
qed

lemma count_errors_distinct:
  "count_errors d es = Inr d' \<Longrightarrow> distinct (map (key_norm \<circ> fst) d)
     \<Longrightarrow> distinct (map (key_norm \<circ> fst) d')"
proof (induction es arbitrary: d)
  case Nil
  then show ?case by simp
next
  case (Cons e es)
  then obtain k where k: "message_key e = Inr k" "hashable k" "count_errors (bump d k) es = Inr d'"
    by (auto simp: then_do_Inr_iff count_message_def split: if_splits)
  from Cons.IH [OF k(3) bump_distinct [OF Cons.prems(2)]] show ?case .
qed

lemma count_errors_sum:
  "count_errors d es = Inr d' \<Longrightarrow> sum_list (map snd d') = sum_list (map snd d) + length es"
proof (induction es arbitrary: d)
  case Nil
  then show ?case by simp
next
  case (Cons e es)
  then obtain k where k: "message_key e = Inr k" "hashable k" "count_errors (bump d k) es = Inr d'"
    by (auto simp: then_do_Inr_iff count_message_def split: if_splits)
  from Cons.IH [OF k(3)] show ?case by (simp add: bump_sum)
qed




lemma error_query_length: "length (error_query cid es) \<le> 100"
  by (simp add: error_query_def limit_def)



lemma error_analytics_Inr:
  assumes "error_analytics c st = Inr r"
  shows "count_errors [] (error_query (client_id_of c) (events st)) = Inr (error_frequency r)
       \<and> collect error_view_of (take 10 (error_query (client_id_of c) (events st))) = Inr (recent_errors r)
       \<and> total_errors r = length (error_query (client_id_of c) (events st))"
  using assms unfolding error_analytics_def Let_def
  by (auto simp: then_do_Inr_iff)






text \<open>
  C9. In every report \<^verbatim>\<open>error_analytics\<close> returns, \<open>total_errors\<close> is the sum of the
  values of \<open>error_frequency\<close>, whose keys are pairwise different, and is at most 100.
\<close>

theorem error_total_is_sum_of_frequencies:
  fixes c :: "'t::linorder client"
  assumes "error_analytics c st = Inr r"
  shows "total_errors r = sum_list (map snd (error_frequency r))
       \<and> distinct (map (key_norm \<circ> fst) (error_frequency r))
       \<and> total_errors r \<le> 100"
proof -
  from error_analytics_Inr [OF assms]
  have d: "count_errors [] (error_query (client_id_of c) (events st)) = Inr (error_frequency r)"
    and t: "total_errors r = length (error_query (client_id_of c) (events st))" by simp_all
  from count_errors_sum [OF d] t have "total_errors r = sum_list (map snd (error_frequency r))"
    by simp
  moreover have "distinct (map (key_norm \<circ> fst) (error_frequency r))"
    by (rule count_errors_distinct [OF d]) simp
  moreover have "total_errors r \<le> 100" using t error_query_length [of "client_id_of c" "events st"]
    by simp
  ultimately show ?thesis by simp
qed

theorem error_total_witness:
  "error_analytics acme sample_state = Inr sample_error_report
   \<and> total_errors sample_error_report = 2
   \<and> map snd (error_frequency sample_error_report) = [1, 1]
   \<and> total_errors sample_error_report = sum_list (map snd (error_frequency sample_error_report))
   \<and> total_errors sample_error_report \<le> 100"
proof -
  have "total_errors sample_error_report = 2
   \<and> map snd (error_frequency sample_error_report) = [1, 1]"
    by (simp add: sample_error_report_def)
  with sample_error_analytics error_total_is_sum_of_frequencies [OF sample_error_analytics]
  show ?thesis by blast
qed

section \<open>The timestamp\<close>

lemma replace_Z_no_Z: "CHR ''Z'' \<notin> set s \<Longrightarrow> replace_Z s = s"
  by (induction s) (auto simp: replace_Z_def)

lemma replace_Z_append: "replace_Z (a @ b) = replace_Z a @ replace_Z b"
  by (simp add: replace_Z_def)

lemma replace_Z_suffix: "CHR ''Z'' \<notin> set s \<Longrightarrow> replace_Z (s @ ''Z'') = s @ ''+00:00''"
  by (simp add: replace_Z_append replace_Z_no_Z) (simp add: replace_Z_def)

text \<open>
  C7. For every submission that is stored and whose \<open>sent_at\<close> is a string \<open>s\<close>
  followed by \<open>Z\<close>, with no other \<open>Z\<close> in it, the stored \<open>sent_at\<close> is what the
  parser reads from \<open>s\<close> followed by \<open>+00:00\<close>: the timestamp \<open>s\<close> at offset zero.
\<close>

theorem z_suffix_stored_as_utc_offset:
  assumes sent: "py_item data ''sent_at'' = Inr (JStr (s @ ''Z''))"
    and noz: "CHR ''Z'' \<notin> set s"
    and stored: "fst (track_event env c data st) = Inr (201, b)"
  shows "\<exists>e. events (snd (track_event env c data st)) = events st @ [e]
          \<and> fromisoformat env (s @ ''+00:00'') = Some (sent_at e)"
proof -
  from stored have "events (snd (track_event env c data st)) \<noteq> events st
           \<or> fst (track_event env c data st) = Inr (201, b)" by simp
  from track_event_stored [OF this] obtain ne e where
    b: "build_event env c data = Inr ne"
    and e: "events (snd (track_event env c data st)) = events st @ [e]" "sent_at e = ne_sent_at ne"
    by blast
  from build_event_Inr [OF b] sent
  have "fromisoformat env (replace_Z (s @ ''Z'')) = Some (ne_sent_at ne)" by auto
  then show ?thesis using e by (simp add: replace_Z_suffix [OF noz])
qed

theorem z_suffix_witness:
  "py_item sample_payload ''sent_at'' = Inr (JStr (''2024-01-01T12:00:00'' @ ''Z''))
   \<and> CHR ''Z'' \<notin> set ''2024-01-01T12:00:00''
   \<and> fst (track_event sample_env acme sample_payload sample_state) = Inr (201, Receipt 5 5000)
   \<and> fromisoformat sample_env (''2024-01-01T12:00:00'' @ ''+00:00'') = Some 1200
   \<and> (\<exists>e. events (snd (track_event sample_env acme sample_payload sample_state))
            = events sample_state @ [e]
          \<and> fromisoformat sample_env (''2024-01-01T12:00:00'' @ ''+00:00'') = Some (sent_at e))"
proof -
  have a: "py_item sample_payload ''sent_at'' = Inr (JStr (''2024-01-01T12:00:00'' @ ''Z''))"
    by (simp add: sample_payload_def)
  have b: "CHR ''Z'' \<notin> set ''2024-01-01T12:00:00''" by simp
  have c: "fromisoformat sample_env (''2024-01-01T12:00:00'' @ ''+00:00'') = Some 1200"
    by (simp add: sample_env_def)
  from a b c sample_track_event z_suffix_stored_as_utc_offset [OF a b sample_track_event]
  show ?thesis by blast
qed

section \<open>Registration\<close>






section \<open>Columns the handler never fills\<close>

text \<open>
  C10. A request to \<^verbatim>\<open>track_event\<close> leaves the events table unchanged or appends one
  row; every row it appends, and so the row of every 201 answer, has \<open>page_title\<close> and
  \<open>referrer\<close> null, and carries the whole payload in \<open>raw_data\<close>.
\<close>

theorem ingested_page_title_referrer_null:
  "(events (snd (track_event env c data st)) = events st
      \<or> (\<exists>e. events (snd (track_event env c data st)) = events st @ [e]
             \<and> page_title e = None \<and> referrer e = None \<and> raw_data e = data))
   \<and> (\<forall>b. fst (track_event env c data st) = Inr (201, b) \<longrightarrow>
         (\<exists>e. events (snd (track_event env c data st)) = events st @ [e]
             \<and> page_title e = None \<and> referrer e = None \<and> raw_data e = data))"
proof (intro conjI allI impI)
  show "events (snd (track_event env c data st)) = events st
      \<or> (\<exists>e. events (snd (track_event env c data st)) = events st @ [e]
             \<and> page_title e = None \<and> referrer e = None \<and> raw_data e = data)"
  proof (cases "events (snd (track_event env c data st)) = events st")
    case True
    then show ?thesis by simp
  next
    case False
    then have "events (snd (track_event env c data st)) \<noteq> events st
           \<or> fst (track_event env c data st) = Inr (201, undefined)" by simp
    from track_event_stored [OF this] show ?thesis
      by (auto dest: build_event_Inr)
  qed
next
  fix b
  assume "fst (track_event env c data st) = Inr (201, b)"
  then have "events (snd (track_event env c data st)) \<noteq> events st
           \<or> fst (track_event env c data st) = Inr (201, b)" by simp
  from track_event_stored [OF this]
  show "\<exists>e. events (snd (track_event env c data st)) = events st @ [e]
             \<and> page_title e = None \<and> referrer e = None \<and> raw_data e = data"
    by (auto dest: build_event_Inr)
qed

theorem ingested_null_columns_witness:
  "py_item sample_payload ''page_info''
     = Inr (JObj [(''url'', JStr ''https://x.test''), (''title'', JStr ''Home''),
                  (''referrer'', JStr ''https://ref.test'')])
   \<and> fst (track_event sample_env acme sample_payload sample_state) = Inr (201, Receipt 5 5000)
   \<and> (\<exists>e. events (snd (track_event sample_env acme sample_payload sample_state))
            = events sample_state @ [e]
          \<and> page_title e = None \<and> referrer e = None \<and> raw_data e = sample_payload)"
proof -
  have "py_item sample_payload ''page_info''
     = Inr (JObj [(''url'', JStr ''https://x.test''), (''title'', JStr ''Home''),
                  (''referrer'', JStr ''https://ref.test'')])"
    by (simp add: sample_payload_def)
  with sample_track_event
    ingested_page_title_referrer_null [of sample_env acme sample_payload sample_state]
  show ?thesis by blast
qed

end
